theory Spec2Isabelle
  imports Complex_Main
begin

section \<open>JavaScript values used by the service\<close>

text \<open>
  A JavaScript number is a double. The model keeps the three kinds of value that the
  code of the service can tell apart: \<open>NaN\<close>, the two infinities, and a finite value,
  which is represented by the rational it denotes. Rounding of literals that need more
  than 53 bits, overflow of huge exponents to infinity and the sign of zero are not
  modelled; none of the comparisons below depends on them.
\<close>

datatype jsnum = NaN | NegInf | Num rat | PosInf

text \<open>\<open>a <= b\<close> on numbers: false whenever an operand is \<open>NaN\<close>.\<close>

fun js_le :: "jsnum \<Rightarrow> jsnum \<Rightarrow> bool" where
  "js_le NaN _ = False"
| "js_le _ NaN = False"
| "js_le NegInf _ = True"
| "js_le _ PosInf = True"
| "js_le (Num x) (Num y) = (x \<le> y)"
| "js_le _ _ = False"

text \<open>Truthiness of a number, as \<open>||\<close> tests it: \<open>NaN\<close> and zero are falsy.\<close>

fun truthy_num :: "jsnum \<Rightarrow> bool" where
  "truthy_num NaN = False"
| "truthy_num (Num x) = (x \<noteq> 0)"
| "truthy_num _ = True"

text \<open>
  Strings are sequences of code units below 256. The white space that \<open>trim\<close> and
  \<open>Number\<close> strip is, in that range, TAB, LF, VT, FF, CR, SP and NBSP.
\<close>

definition is_ws :: "char \<Rightarrow> bool" where
  "is_ws c = ((of_char c :: nat) \<in> {9, 10, 11, 12, 13, 32, 160})"

definition trim :: "string \<Rightarrow> string" where
  "trim s = rev (dropWhile is_ws (rev (dropWhile is_ws s)))"












text \<open>\<open>v || d\<close> on a string that may be \<open>undefined\<close>: the empty string is falsy.\<close>

definition str_or :: "string option \<Rightarrow> string \<Rightarrow> string" where
  "str_or v d = (case v of None \<Rightarrow> d | Some s \<Rightarrow> if s = [] then d else s)"


text \<open>\<open>s.split(c)\<close> with a one-character separator: the empty string gives one empty piece.\<close>

fun split_on :: "char \<Rightarrow> string \<Rightarrow> string list" where
  "split_on c [] = [[]]"
| "split_on c (x # xs) =
     (if x = c then [] # split_on c xs
      else (case split_on c xs of [] \<Rightarrow> [[x]] | w # ws \<Rightarrow> (x # w) # ws))"

text \<open>
  A thrown value, as the error handler reads it: the fields \<open>status\<close>, \<open>message\<close> and
  \<open>stack\<close>, each of which may be \<open>undefined\<close>.
\<close>

record js_error =
  err_status :: "jsnum option"
  err_message :: "string option"
  err_stack :: "string option"

section \<open>Configuration (src/config/index.ts)\<close>

record RateLimitConfig =
  globalPerMin :: jsnum
  authPerMin :: jsnum

record SecurityConfig =
  enableHelmet :: bool
  enableCSP :: bool
  enableHSTS :: bool

record LoggingConfig =
  level :: string
  pretty :: bool
  includeBodies :: bool

record BuildConfig =
  commit :: "string option"
  node :: string

record AppConfig =
  env :: string
  serviceName :: string
  host :: string
  port :: jsnum
  corsOrigins :: "string list"
  rateLimit :: RateLimitConfig
  security :: SecurityConfig
  logging :: LoggingConfig
  build :: BuildConfig



definition isProduction :: "AppConfig \<Rightarrow> bool" where
  "isProduction cfg = (env cfg = ''production'')"

definition isDevelopment :: "AppConfig \<Rightarrow> bool" where
  "isDevelopment cfg = (env cfg = ''development'')"



section \<open>Requests, responses and the process-wide state\<close>

datatype json =
    JNull
  | JBool bool
  | JNum jsnum
  | JStr string
  | JArr "json list"
  | JObj "(string \<times> json) list"

text \<open>A field of an object literal whose value may be \<open>undefined\<close>: JSON leaves it out.\<close>

definition field :: "string \<Rightarrow> json option \<Rightarrow> (string \<times> json) list" where
  "field k v = (case v of None \<Rightarrow> [] | Some j \<Rightarrow> [(k, j)])"

text \<open>A header value is a string or a number (\<open>setHeader\<close> takes both).\<close>

datatype hvalue = HStr string | HNum jsnum

type_synonym headers = "(string \<times> hvalue) list"

text \<open>
  One call of \<open>observe\<close> on the histogram: the three labels and the value. The
  label \<open>status\<close> is \<open>String(res.statusCode)\<close>; the model keeps the number that the
  text prints.
\<close>

record observation =
  l_method :: string
  l_route :: string
  l_status :: jsnum
  l_value :: int

text \<open>
  A response body: none, a JSON value, or the text of the metrics registry, which is
  kept as the observations of the histogram that the text renders.
\<close>

datatype payload = NoBody | Json json | MetricsText "observation list"

text \<open>
  The request as the handlers see it. Header names are in lower case, as Node
  delivers them. \<open>req_requestId\<close> is the property the correlation middleware adds,
  \<open>req_body\<close> the one the body parser adds, \<open>req_route\<close> the path of the route that
  matched (\<open>req.route?.path\<close>).
\<close>

record request =
  req_method :: string
  req_path :: string
  req_url :: string
  req_headers :: "(string \<times> string) list"
  req_ip :: string
  req_body :: "json option"
  req_requestId :: "string option"
  req_route :: "string option"

record response =
  statusCode :: jsnum
  res_headers :: headers
  res_body :: payload

text \<open>One window of the rate limiter: the hits counted in it and the time it ends.\<close>

record window =
  totalHits :: nat
  resetTime :: nat

type_synonym store = "string \<Rightarrow> window option"

text \<open>
  The state that outlives a request: the store of each of the two limiters and the
  calls of \<open>observe\<close> made so far on \<open>httpRequestDurationMs\<close>.
\<close>

record server =
  globalStore :: store
  authStore :: store
  httpRequestDurationMs :: "observation list"

text \<open>
  What a request reads from outside: \<open>Date.now()\<close> while the middleware run and when
  the response has been written, the value \<open>randomUUID()\<close> returns,
  \<open>process.uptime()\<close> and the content type of the metrics registry. The limiters, the
  metrics middleware and the route handlers run in one turn of the event loop, after
  the body has been read; the model gives them the same reading of the clock.
\<close>

record ambient =
  now :: nat
  finished_at :: nat
  uuid :: string
  uptime :: jsnum
  contentType :: string

definition to_lower :: "char \<Rightarrow> char" where
  "to_lower c =
     (case map_of (zip ''ABCDEFGHIJKLMNOPQRSTUVWXYZ'' ''abcdefghijklmnopqrstuvwxyz'') c of
        None \<Rightarrow> c
      | Some l \<Rightarrow> l)"

definition set_header :: "string \<Rightarrow> hvalue \<Rightarrow> headers \<Rightarrow> headers" where
  "set_header k v hs = filter (\<lambda>kv. fst kv \<noteq> map to_lower k) hs @ [(map to_lower k, v)]"

definition setHeader :: "string \<Rightarrow> hvalue \<Rightarrow> response \<Rightarrow> response" where
  "setHeader k v rs = rs \<lparr> res_headers := set_header k v (res_headers rs) \<rparr>"

definition getHeader :: "string \<Rightarrow> response \<Rightarrow> hvalue option" where
  "getHeader k rs = map_of (res_headers rs) (map to_lower k)"

text \<open>\<open>req.header(name)\<close>: the lookup ignores the case of the name.\<close>

definition req_header :: "string \<Rightarrow> request \<Rightarrow> string option" where
  "req_header k rq = map_of (req_headers rq) (map to_lower k)"

text \<open>\<open>res.json(v)\<close>: the body and its content type; the status stays as it is.\<close>

definition res_json :: "json \<Rightarrow> response \<Rightarrow> response" where
  "res_json v rs =
     (setHeader ''Content-Type'' (HStr ''application/json; charset=utf-8'') rs) \<lparr> res_body := Json v \<rparr>"

definition res_status :: "jsnum \<Rightarrow> response \<Rightarrow> response" where
  "res_status n rs = rs \<lparr> statusCode := n \<rparr>"

section \<open>The correlation middleware (src/middleware/requestId.ts)\<close>

definition requestIdHeader :: string where
  "requestIdHeader = ''x-request-id''"

text \<open>
  The identifier the middleware chooses: \<open>incoming && incoming.trim().length > 0 ?
  incoming : randomUUID()\<close>.
\<close>

definition chosen_id :: "string option \<Rightarrow> string \<Rightarrow> string" where
  "chosen_id incoming fresh =
     (case incoming of
        None \<Rightarrow> fresh
      | Some s \<Rightarrow> if s \<noteq> [] \<and> length (trim s) > 0 then s else fresh)"

text \<open>
  \<open>requestId(req, res, next)\<close>: the new request and response; the middleware always
  calls \<open>next()\<close>.
\<close>

definition requestId :: "ambient \<Rightarrow> request \<Rightarrow> response \<Rightarrow> request \<times> response" where
  "requestId amb rq rs =
     (let incoming = req_header requestIdHeader rq;
          ident = chosen_id incoming (uuid amb)
      in (rq \<lparr> req_requestId := Some ident \<rparr>, setHeader requestIdHeader (HStr ident) rs))"

definition getRequestId :: "request \<Rightarrow> string option" where
  "getRequestId rq = req_requestId rq"

section \<open>The rate limiter (src/server.ts, makeLimiter)\<close>

text \<open>The options \<open>makeLimiter\<close> passes to \<open>rateLimit\<close>.\<close>

record rl_options =
  windowMs :: nat
  limit :: jsnum
  standardHeaders :: bool
  legacyHeaders :: bool

datatype outcome = Next | NextErr js_error | Done

text \<open>
  What \<open>makeLimiter\<close> returns: the middleware that only calls \<open>next()\<close>, or the one
  \<open>rateLimit\<close> builds from the options.
\<close>

datatype limiter = PassThrough | RateLimit rl_options

definition makeLimiter :: "jsnum \<Rightarrow> limiter" where
  "makeLimiter perMin =
     (if js_le perMin (Num 0) then PassThrough
      else RateLimit \<lparr> windowMs = 60 * 1000, limit = perMin,
                       standardHeaders = True, legacyHeaders = False \<rparr>)"

text \<open>
  Modelled from the spec: \<open>rateLimit_middleware\<close> is the middleware that
  \<open>rateLimit(options)\<close> of the package express-rate-limit returns; the package is not
  among the sources. The specification
  (4.4) gives the rule: if no window is active or the active window has expired, start
  a new window with count 1 and admit; otherwise increment the count and admit if the
  count is at most the ceiling, else reject. A window started at \<open>t\<close> is active at the
  times before \<open>t + windowMs\<close>. A rejection is the status 429 with the three standard
  headers (limit, remaining, reset) and no call of \<open>next()\<close>. The window is kept per
  client key. The option \<open>legacyHeaders\<close> is off in this program; the headers it
  would add are left out.
\<close>

definition rateLimit_middleware ::
  "rl_options \<Rightarrow> nat \<Rightarrow> string \<Rightarrow> store \<Rightarrow> response \<Rightarrow> outcome \<times> store \<times> response" where
  "rateLimit_middleware opts t key st rs =
     (let fresh = \<lparr> totalHits = 1, resetTime = t + windowMs opts \<rparr> in
      case st key of
        None \<Rightarrow> (Next, st(key \<mapsto> fresh), rs)
      | Some w \<Rightarrow>
          if resetTime w \<le> t then (Next, st(key \<mapsto> fresh), rs)
          else
            let w' = w \<lparr> totalHits := totalHits w + 1 \<rparr> in
            if js_le (Num (of_nat (totalHits w'))) (limit opts) then (Next, st(key \<mapsto> w'), rs)
            else
              (Done, st(key \<mapsto> w'),
               (if standardHeaders opts then
                  setHeader ''RateLimit-Limit'' (HNum (limit opts))
                    (setHeader ''RateLimit-Remaining'' (HNum (Num 0))
                      (setHeader ''RateLimit-Reset'' (HNum (Num (of_nat (resetTime w')))) rs))
                else rs) \<lparr> statusCode := Num 429 \<rparr>))"

text \<open>One request through a limiter: the client key, the time, the store, the response.\<close>

definition run_limiter ::
  "limiter \<Rightarrow> nat \<Rightarrow> string \<Rightarrow> store \<Rightarrow> response \<Rightarrow> outcome \<times> store \<times> response" where
  "run_limiter lm t key st rs =
     (case lm of
        PassThrough \<Rightarrow> (Next, st, rs)
      | RateLimit opts \<Rightarrow> rateLimit_middleware opts t key st rs)"

text \<open>
  A sequence of requests, each a time and a client key, through one limiter; every
  request starts from the response \<open>rs\<close>. The result lists what each request got.
\<close>

fun limiter_run ::
  "limiter \<Rightarrow> response \<Rightarrow> store \<Rightarrow> (nat \<times> string) list \<Rightarrow> (outcome \<times> response) list \<times> store" where
  "limiter_run lm rs st [] = ([], st)"
| "limiter_run lm rs st ((t, key) # rest) =
     (case run_limiter lm t key st rs of
        (out, st', rs') \<Rightarrow>
          (case limiter_run lm rs st' rest of
             (outs, st'') \<Rightarrow> ((out, rs') # outs, st'')))"

section \<open>The pipeline (src/server.ts)\<close>

datatype stage =
    RequestId | PinoHttp | Morgan | JsonBody | Cors | Helmet
  | GlobalLimiter | AuthLimiter | MetricsTimer
  | Route string | NotFound | ErrorHandler | FinalHandler

text \<open>
  One request in flight: the request and response objects, the process-wide state, the
  start times held by the listeners registered on the event \<open>finish\<close> of the
  response, and the stages that ran so far, each with what it did (\<open>Next\<close> for
  \<open>next()\<close>, \<open>NextErr e\<close> for \<open>next(e)\<close> or a throw, \<open>Done\<close> for a response sent
  without calling \<open>next\<close>).
\<close>

record exchange =
  req :: request
  res :: response
  srv :: server
  listeners :: "nat list"
  trace :: "(stage \<times> outcome) list"

type_synonym middleware = "exchange \<Rightarrow> outcome \<times> exchange"

text \<open>
  The middleware of the packages pino-http, morgan, cors and helmet are parameters.
  Such a middleware sets response headers and calls \<open>next()\<close>, or sends a response
  itself (a status and headers), or fails. \<open>express.json\<close> either fails or assigns
  \<open>req.body\<close> and calls \<open>next()\<close>.
\<close>

datatype lib_step = Pass headers | Finish jsnum headers | Throw js_error

record libs =
  pinoHttp :: "request \<Rightarrow> lib_step"
  morgan :: "request \<Rightarrow> lib_step"
  express_json :: "request \<Rightarrow> js_error + json option"
  cors :: "request \<Rightarrow> lib_step"
  helmet :: "request \<Rightarrow> lib_step"

definition add_headers :: "headers \<Rightarrow> response \<Rightarrow> response" where
  "add_headers hs rs = fold (\<lambda>kv. setHeader (fst kv) (snd kv)) hs rs"

definition third_party :: "(request \<Rightarrow> lib_step) \<Rightarrow> middleware" where
  "third_party f x =
     (case f (req x) of
        Pass hs \<Rightarrow> (Next, x \<lparr> res := add_headers hs (res x) \<rparr>)
      | Finish n hs \<Rightarrow> (Done, x \<lparr> res := res_status n (add_headers hs (res x)) \<rparr>)
      | Throw e \<Rightarrow> (NextErr e, x))"

definition json_body :: "libs \<Rightarrow> middleware" where
  "json_body L x =
     (case express_json L (req x) of
        Inl e \<Rightarrow> (NextErr e, x)
      | Inr b \<Rightarrow> (Next, x \<lparr> req := (req x) \<lparr> req_body := b \<rparr> \<rparr>))"

definition requestId_mw :: "ambient \<Rightarrow> middleware" where
  "requestId_mw amb x =
     (case requestId amb (req x) (res x) of
        (rq, rs) \<Rightarrow> (Next, x \<lparr> req := rq, res := rs \<rparr>))"

text \<open>
  \<open>app.use(makeLimiter(cfg.rateLimit.globalPerMin))\<close> and the limiter of the
  authentication routes: each has a store of its own; the client key is the address.
\<close>

definition global_limiter :: "AppConfig \<Rightarrow> ambient \<Rightarrow> middleware" where
  "global_limiter cfg amb x =
     (case run_limiter (makeLimiter (globalPerMin (rateLimit cfg))) (now amb) (req_ip (req x))
             (globalStore (srv x)) (res x) of
        (out, st, rs) \<Rightarrow> (out, x \<lparr> res := rs, srv := (srv x) \<lparr> globalStore := st \<rparr> \<rparr>))"

definition auth_limiter :: "AppConfig \<Rightarrow> ambient \<Rightarrow> middleware" where
  "auth_limiter cfg amb x =
     (case run_limiter (makeLimiter (authPerMin (rateLimit cfg))) (now amb) (req_ip (req x))
             (authStore (srv x)) (res x) of
        (out, st, rs) \<Rightarrow> (out, x \<lparr> res := rs, srv := (srv x) \<lparr> authStore := st \<rparr> \<rparr>))"

text \<open>
  The metrics middleware takes the time, registers a listener on \<open>finish\<close> and calls
  \<open>next()\<close>. When the response has been written, each listener makes one call of
  \<open>observe\<close> with the labels \<open>req.method\<close>, \<open>req.route?.path || req.path\<close> and the
  status.
\<close>

definition metrics_timer :: "ambient \<Rightarrow> middleware" where
  "metrics_timer amb x = (Next, x \<lparr> listeners := listeners x @ [now amb] \<rparr>)"

definition observe :: "ambient \<Rightarrow> exchange \<Rightarrow> nat \<Rightarrow> observation" where
  "observe amb x start =
     \<lparr> l_method = req_method (req x),
       l_route = str_or (req_route (req x)) (req_path (req x)),
       l_status = statusCode (res x),
       l_value = int (finished_at amb) - int start \<rparr>"

definition on_finish :: "ambient \<Rightarrow> exchange \<Rightarrow> exchange" where
  "on_finish amb x =
     x \<lparr> srv := (srv x) \<lparr> httpRequestDurationMs :=
            httpRequestDurationMs (srv x) @ map (observe amb x) (listeners x) \<rparr> \<rparr>"

subsection \<open>Route handlers, the not-found handler and the error handler\<close>

definition version_handler :: "AppConfig \<Rightarrow> middleware" where
  "version_handler cfg x =
     (Done, x \<lparr> res := res_json
        (JObj ([(''service'', JStr (serviceName cfg)),
                (''env'', JStr (env cfg)),
                (''node'', JStr (node (build cfg)))]
               @ field ''commit'' (map_option JStr (commit (build cfg)))))
        (res x) \<rparr>)"

definition healthz_handler :: "ambient \<Rightarrow> middleware" where
  "healthz_handler amb x =
     (Done, x \<lparr> res := res_json
        (JObj [(''ok'', JBool True),
               (''uptime'', JNum (uptime amb)),
               (''ts'', JNum (Num (of_nat (now amb))))])
        (res x) \<rparr>)"

definition readyz_handler :: "AppConfig \<Rightarrow> middleware" where
  "readyz_handler cfg x =
     (let healthy = True in
      if \<not> healthy \<and> isProduction cfg
      then (Done, x \<lparr> res := res_json (JObj [(''ok'', JBool False)]) (res_status (Num 503) (res x)) \<rparr>)
      else (Done, x \<lparr> res := res_json (JObj [(''ok'', JBool True)]) (res x) \<rparr>))"

definition metrics_handler :: "ambient \<Rightarrow> middleware" where
  "metrics_handler amb x =
     (Done, x \<lparr> res := (setHeader ''Content-Type'' (HStr (contentType amb)) (res x))
                          \<lparr> res_body := MetricsText (httpRequestDurationMs (srv x)) \<rparr> \<rparr>)"

definition root_handler :: "ambient \<Rightarrow> middleware" where
  "root_handler amb x =
     (Done, x \<lparr> res := res_json
        (JObj [(''name'', JStr ''Nexus Sentinel API''),
               (''message'', JStr ''Service is running''),
               (''health'', JStr ''/healthz''),
               (''ready'', JStr ''/readyz''),
               (''version'', JStr ''/version''),
               (''ts'', JNum (Num (of_nat (now amb))))])
        (res_status (Num 200) (res x)) \<rparr>)"

definition notFound :: middleware where
  "notFound x =
     (let ident = getRequestId (req x) in
      (Done, x \<lparr> res := res_json
         (JObj ([(''error'', JStr ''Not Found''), (''path'', JStr (req_path (req x)))]
                @ field ''requestId'' (map_option JStr ident)))
         (res_status (Num 404) (res x)) \<rparr>))"

text \<open>\<open>err.status || 500\<close>: an absent status, \<open>NaN\<close> and 0 all give 500.\<close>

definition status_or_500 :: "js_error \<Rightarrow> jsnum" where
  "status_or_500 err =
     (case err_status err of
        None \<Rightarrow> Num 500
      | Some n \<Rightarrow> if truthy_num n then n else Num 500)"

definition errorHandler :: "AppConfig \<Rightarrow> js_error \<Rightarrow> middleware" where
  "errorHandler cfg err x =
     (let ident = getRequestId (req x);
          status = status_or_500 err;
          payload = [(''error'', JStr (str_or (err_message err) ''Internal Server Error''))]
                    @ field ''requestId'' (map_option JStr ident);
          payload' = (if \<not> isProduction cfg
                      then payload @ field ''stack'' (map_option JStr (err_stack err))
                      else payload)
      in (Done, x \<lparr> res := res_json (JObj payload') (res_status status (res x)) \<rparr>))"

subsection \<open>Layers and the dispatcher\<close>

text \<open>
  A layer of the application stack: \<open>app.use(f)\<close>, \<open>app.use(paths, f)\<close>,
  \<open>app.get(path, f)\<close> and \<open>app.use\<close> of a handler with four parameters.
\<close>

datatype layer =
    Use stage middleware
  | UseAt "string list" stage middleware
  | Get string middleware
  | UseError stage "js_error \<Rightarrow> middleware"

text \<open>
  Matching, with the defaults of Express: the case of letters is ignored and one slash
  at the end is optional; a mount path matches a prefix that ends at a segment boundary.
\<close>

definition path_base :: "string \<Rightarrow> string" where
  "path_base p = map to_lower (if p \<noteq> [] \<and> last p = CHR ''/'' then butlast p else p)"

definition route_match :: "string \<Rightarrow> string \<Rightarrow> bool" where
  "route_match p path =
     (let q = map to_lower path in q = path_base p \<or> q = path_base p @ ''/'')"

definition mount_match :: "string \<Rightarrow> string \<Rightarrow> bool" where
  "mount_match p path =
     (let q = map to_lower path; b = path_base p; r = drop (length b) q
      in take (length b) q = b \<and> (r = [] \<or> hd r = CHR ''/''))"

text \<open>
  Whether the dispatcher runs a layer: handlers with four parameters run only while an
  error is pending, all others only while none is. A route added with \<open>app.get\<close>
  serves GET and, there being no HEAD route, HEAD.
\<close>

fun layer_matches :: "layer \<Rightarrow> js_error option \<Rightarrow> request \<Rightarrow> bool" where
  "layer_matches (Use st f) err rq = (err = None)"
| "layer_matches (UseAt ps st f) err rq = (err = None \<and> list_ex (\<lambda>p. mount_match p (req_path rq)) ps)"
| "layer_matches (Get p f) err rq =
     (err = None \<and> (req_method rq = ''GET'' \<or> req_method rq = ''HEAD'') \<and> route_match p (req_path rq))"
| "layer_matches (UseError st f) err rq = (err \<noteq> None)"

definition traced :: "stage \<Rightarrow> outcome \<times> exchange \<Rightarrow> outcome \<times> exchange" where
  "traced st r = (fst r, (snd r) \<lparr> trace := trace (snd r) @ [(st, fst r)] \<rparr>)"

fun run_layer :: "layer \<Rightarrow> js_error option \<Rightarrow> exchange \<Rightarrow> outcome \<times> exchange" where
  "run_layer (Use st f) err x = traced st (f x)"
| "run_layer (UseAt ps st f) err x = traced st (f x)"
| "run_layer (Get p f) err x = traced (Route p) (f (x \<lparr> req := (req x) \<lparr> req_route := Some p \<rparr> \<rparr>))"
| "run_layer (UseError st f) err x =
     (case err of None \<Rightarrow> (Next, x) | Some e \<Rightarrow> traced st (f e x))"

text \<open>
  What Express does when the stack is exhausted: 404 without a pending error, else the
  status of the error when it is one of 400 to 599, and 500 otherwise.
\<close>

definition finalhandler :: "js_error option \<Rightarrow> exchange \<Rightarrow> exchange" where
  "finalhandler err x =
     (let status = (case err of
                      None \<Rightarrow> Num 404
                    | Some e \<Rightarrow>
                        (case err_status e of
                           Some (Num n) \<Rightarrow> if 400 \<le> n \<and> n < 600 then Num n else Num 500
                         | _ \<Rightarrow> Num 500))
      in x \<lparr> res := res_status status (res x), trace := trace x @ [(FinalHandler, Done)] \<rparr>)"

fun dispatch :: "layer list \<Rightarrow> js_error option \<Rightarrow> exchange \<Rightarrow> exchange" where
  "dispatch [] err x = finalhandler err x"
| "dispatch (l # ls) err x =
     (if layer_matches l err (req x) then
        (case run_layer l err x of
           (Next, x') \<Rightarrow> dispatch ls None x'
         | (NextErr e, x') \<Rightarrow> dispatch ls (Some e) x'
         | (Done, x') \<Rightarrow> x')
      else dispatch ls err x)"

text \<open>The stack, in the order in which src/server.ts registers it.\<close>

definition app :: "AppConfig \<Rightarrow> libs \<Rightarrow> ambient \<Rightarrow> layer list" where
  "app cfg L amb =
     [Use RequestId (requestId_mw amb),
      Use PinoHttp (third_party (pinoHttp L))]
     @ (if isDevelopment cfg then [Use Morgan (third_party (morgan L))] else [])
     @ [Use JsonBody (json_body L),
        Use Cors (third_party (cors L))]
     @ (if enableHelmet (security cfg) then [Use Helmet (third_party (helmet L))] else [])
     @ [Use GlobalLimiter (global_limiter cfg amb),
        UseAt [''/auth'', ''/login''] AuthLimiter (auth_limiter cfg amb),
        Use MetricsTimer (metrics_timer amb),
        Get ''/version'' (version_handler cfg),
        Get ''/healthz'' (healthz_handler amb),
        Get ''/readyz'' (readyz_handler cfg),
        Get ''/metrics'' (metrics_handler amb),
        Get ''/'' (root_handler amb),
        Use NotFound notFound,
        UseError ErrorHandler (errorHandler cfg)]"

text \<open>
  One request from arrival to the event \<open>finish\<close>: the response starts with status
  200 and no headers, and the properties that the pipeline adds to the request are
  not yet there.
\<close>

definition arrive :: "server \<Rightarrow> request \<Rightarrow> exchange" where
  "arrive s rq =
     \<lparr> req = rq \<lparr> req_body := None, req_requestId := None, req_route := None \<rparr>,
       res = \<lparr> statusCode = Num 200, res_headers = [], res_body = NoBody \<rparr>,
       srv = s,
       listeners = [],
       trace = [] \<rparr>"

definition handle :: "AppConfig \<Rightarrow> libs \<Rightarrow> ambient \<Rightarrow> server \<Rightarrow> request \<Rightarrow> exchange" where
  "handle cfg L amb s rq = on_finish amb (dispatch (app cfg L amb) None (arrive s rq))"

section \<open>The logger (src/server.ts)\<close>

record redact_options =
  paths :: "string list"
  censor :: string

record logger_options =
  log_level :: string
  redact :: redact_options

definition logger :: "AppConfig \<Rightarrow> logger_options" where
  "logger cfg =
     \<lparr> log_level = level (logging cfg),
       redact = \<lparr> paths = [''req.headers.authorization'', ''req.body.password'', ''res.body''],
                  censor = ''[REDACTED]'' \<rparr> \<rparr>"

text \<open>The options given to \<open>pinoHttp\<close>: \<open>genReqId\<close> and \<open>customProps\<close>.\<close>

definition genReqId :: "ambient \<Rightarrow> request \<Rightarrow> string" where
  "genReqId amb rq = (case getRequestId rq of None \<Rightarrow> uuid amb | Some i \<Rightarrow> i)"

definition customProps :: "AppConfig \<Rightarrow> (string \<times> json) list" where
  "customProps cfg = [(''env'', JStr (env cfg)), (''service'', JStr (serviceName cfg))]"

text \<open>
  Modelled from the spec: \<open>censor_at\<close> is the redaction that the package pino applies
  to a record before it is serialised; the package is not among the sources. The
  specification (4.3) says that the values named by the redaction rule are replaced
  with a fixed marker. A path names a property of nested objects; a record that has no
  such property is left as it is.
\<close>

fun censor_at :: "string list \<Rightarrow> json \<Rightarrow> json \<Rightarrow> json" where
  "censor_at [] c j = c"
| "censor_at (k # ks) c j =
     (case j of
        JObj kvs \<Rightarrow> JObj (map (\<lambda>kv. if fst kv = k then (fst kv, censor_at ks c (snd kv)) else kv) kvs)
      | _ \<Rightarrow> j)"

text \<open>
  Modelled from the spec: \<open>redact_record\<close> is the redaction of the package pino with
  the options of the logger: every configured path, written with dots, is censored in
  turn with the configured marker.
\<close>

definition redact_record :: "redact_options \<Rightarrow> json \<Rightarrow> json" where
  "redact_record opts j =
     fold (\<lambda>p. censor_at (split_on CHR ''.'' p) (JStr (censor opts))) (paths opts) j"

text \<open>
  Modelled from the spec: \<open>req_record\<close> is what the package pino-http puts into a
  record under \<open>req\<close>; the package is not among the sources. The specification (4.3)
  asks for the correlation identifier, the method and the path; the headers and the
  body are added here because they are what the redaction rule is about.
\<close>

definition req_record :: "ambient \<Rightarrow> request \<Rightarrow> json" where
  "req_record amb rq =
     JObj ([(''id'', JStr (genReqId amb rq)),
            (''method'', JStr (req_method rq)),
            (''url'', JStr (req_url rq)),
            (''headers'', JObj (map (\<lambda>kv. (fst kv, JStr (snd kv))) (req_headers rq)))]
           @ field ''body'' (req_body rq))"

text \<open>
  Modelled from the spec: \<open>res_record\<close> is what the package pino-http puts into a
  record under \<open>res\<close>: the status, and the body, which the redaction rule names; a body
  that is not JSON is held as \<open>JNull\<close>.
\<close>

definition res_record :: "response \<Rightarrow> json" where
  "res_record rs =
     JObj ([(''statusCode'', JNum (statusCode rs))]
           @ field ''body'' (case res_body rs of NoBody \<Rightarrow> None | Json j \<Rightarrow> Some j | MetricsText obs \<Rightarrow> Some JNull))"

text \<open>
  Modelled from the spec: \<open>request_records\<close> are the records that the package
  pino-http emits for a request, after redaction. The specification (4.3) asks for one
  record when the request starts and one when it finishes, the second with the status
  and the duration, both with the environment and the service name, which are the
  \<open>customProps\<close> of the source.
\<close>

definition request_records :: "AppConfig \<Rightarrow> ambient \<Rightarrow> request \<Rightarrow> response \<Rightarrow> json list" where
  "request_records cfg amb rq rs =
     map (redact_record (redact (logger cfg)))
       [JObj (customProps cfg
              @ [(''req'', req_record amb rq), (''msg'', JStr ''request started'')]),
        JObj (customProps cfg
              @ [(''req'', req_record amb rq),
                 (''res'', res_record rs),
                 (''responseTime'', JNum (Num (of_int (int (finished_at amb) - int (now amb))))),
                 (''msg'', JStr ''request completed'')])]"

text \<open>
  Two requests that differ only in the value of the header \<open>authorization\<close>, or only
  in the value of the field \<open>password\<close> of a body that is an object: the second is
  the first with that value replaced.
\<close>

definition with_authorization :: "string \<Rightarrow> request \<Rightarrow> request" where
  "with_authorization v rq =
     rq \<lparr> req_headers :=
            map (\<lambda>kv. if fst kv = ''authorization'' then (fst kv, v) else kv) (req_headers rq) \<rparr>"

definition with_password :: "json \<Rightarrow> request \<Rightarrow> request" where
  "with_password v rq =
     rq \<lparr> req_body :=
            (case req_body rq of
               Some (JObj kvs) \<Rightarrow>
                 Some (JObj (map (\<lambda>kv. if fst kv = ''password'' then (fst kv, v) else kv) kvs))
             | b \<Rightarrow> b) \<rparr>"

section \<open>Shutdown (src/server.ts)\<close>

datatype severity = Info | Warn | Error

text \<open>
  The state of the process as \<open>shutdown\<close> and its callbacks see it: the clock, the
  pending timeouts (handle and due time), whether \<open>server.close\<close> has been called,
  the listeners that \<open>server.close\<close> registered on the event \<open>close\<close> (for each, the
  timeout its callback clears and whether Node calls the callback with the error
  \<open>ERR_SERVER_NOT_RUNNING\<close>, which it does when the server was already closing), the
  calls made on the logger, and the exit code and time once \<open>process.exit\<close> has run.
\<close>

record lifecycle =
  clock :: nat
  timers :: "(nat \<times> nat) list"
  next_handle :: nat
  closing :: bool
  close_listeners :: "(nat \<times> bool) list"
  logged :: "(severity \<times> (string \<times> string) list \<times> string) list"
  exited :: "(nat \<times> nat) option"

definition boot :: lifecycle where
  "boot = \<lparr> clock = 0, timers = [], next_handle = 0, closing = False,
            close_listeners = [], logged = [], exited = None \<rparr>"

definition log_call :: "severity \<Rightarrow> (string \<times> string) list \<Rightarrow> string \<Rightarrow> lifecycle \<Rightarrow> lifecycle" where
  "log_call sev obj msg s = s \<lparr> logged := logged s @ [(sev, obj, msg)] \<rparr>"

definition process_exit :: "nat \<Rightarrow> lifecycle \<Rightarrow> lifecycle" where
  "process_exit code s = s \<lparr> exited := Some (code, clock s) \<rparr>"

definition setTimeout :: "nat \<Rightarrow> lifecycle \<Rightarrow> nat \<times> lifecycle" where
  "setTimeout ms s =
     (next_handle s,
      s \<lparr> timers := timers s @ [(next_handle s, clock s + ms)], next_handle := next_handle s + 1 \<rparr>)"

definition clearTimeout :: "nat \<Rightarrow> lifecycle \<Rightarrow> lifecycle" where
  "clearTimeout h s = s \<lparr> timers := filter (\<lambda>t. fst t \<noteq> h) (timers s) \<rparr>"

text \<open>\<open>server.close(cb)\<close>, where \<open>cb\<close> is the callback of \<open>shutdown\<close> that holds the timeout \<open>h\<close>.\<close>

definition server_close :: "nat \<Rightarrow> lifecycle \<Rightarrow> lifecycle" where
  "server_close h s = s \<lparr> close_listeners := close_listeners s @ [(h, closing s)], closing := True \<rparr>"

definition shutdown :: "string \<Rightarrow> lifecycle \<Rightarrow> lifecycle" where
  "shutdown signal s =
     (let s1 = log_call Warn [(''signal'', signal)] ''Shutdown initiated'' s in
      case setTimeout 30000 s1 of
        (timeout, s2) \<Rightarrow> server_close timeout s2)"

text \<open>The callback of the timeout, and the callback given to \<open>server.close\<close>.\<close>

definition on_timeout :: "lifecycle \<Rightarrow> lifecycle" where
  "on_timeout s = process_exit 1 (log_call Error [] ''Force exit after timeout'' s)"

definition on_close :: "nat \<Rightarrow> bool \<Rightarrow> lifecycle \<Rightarrow> lifecycle" where
  "on_close timeout err s =
     (let s1 = clearTimeout timeout s in
      if err then process_exit 1 (log_call Error [(''err'', ''ERR_SERVER_NOT_RUNNING'')] ''Error closing server'' s1)
      else process_exit 0 (log_call Info [] ''Server closed cleanly'' s1))"

text \<open>The pending timeout that is due first; of two due at the same time, the older.\<close>

fun earliest :: "(nat \<times> nat) list \<Rightarrow> (nat \<times> nat) option" where
  "earliest [] = None"
| "earliest (t # ts) =
     (case earliest ts of
        None \<Rightarrow> Some t
      | Some u \<Rightarrow> if snd t \<le> snd u then Some t else Some u)"

text \<open>
  What happens to the process: a termination signal arrives, time passes, or the
  server emits \<open>close\<close> because the last connection has ended. Once the process has
  exited nothing happens any more. When time passes beyond the first due timeout, that
  timeout fires at its due time. On \<open>close\<close> the listeners run in the order in which
  they were registered; the first one exits the process.
\<close>

datatype event = Signal string | Elapse nat | ServerClosed

definition step :: "event \<Rightarrow> lifecycle \<Rightarrow> lifecycle" where
  "step ev s =
     (if exited s \<noteq> None then s
      else case ev of
        Signal sg \<Rightarrow> shutdown sg s
      | Elapse d \<Rightarrow>
          (case earliest (timers s) of
             None \<Rightarrow> s \<lparr> clock := clock s + d \<rparr>
           | Some t \<Rightarrow>
               if snd t \<le> clock s + d
               then on_timeout (s \<lparr> clock := max (clock s) (snd t),
                                    timers := filter (\<lambda>u. fst u \<noteq> fst t) (timers s) \<rparr>)
               else s \<lparr> clock := clock s + d \<rparr>)
      | ServerClosed \<Rightarrow>
          (if closing s then
             (case close_listeners s of
                [] \<Rightarrow> s
              | l # ls \<Rightarrow> on_close (fst l) (snd l) (s \<lparr> close_listeners := ls \<rparr>))
           else s))"

fun run :: "event list \<Rightarrow> lifecycle \<Rightarrow> lifecycle" where
  "run [] s = s"
| "run (ev # evs) s = run evs (step ev s)"

section \<open>The stack in three parts\<close>

text \<open>
  The dispatcher again, as a function that also says whether the stack was left
  without a response (\<open>Inl\<close>, with the pending error) or with one (\<open>Inr\<close>); it
  lets a property of the whole stack be put together from properties of its parts.
\<close>

fun walk :: "layer list \<Rightarrow> js_error option \<Rightarrow> exchange \<Rightarrow> (js_error option \<times> exchange) + exchange" where
  "walk [] err x = Inl (err, x)"
| "walk (l # ls) err x =
     (if layer_matches l err (req x) then
        (case run_layer l err x of
           (Next, x') \<Rightarrow> walk ls None x'
         | (NextErr e, x') \<Rightarrow> walk ls (Some e) x'
         | (Done, x') \<Rightarrow> Inr x')
      else walk ls err x)"

text \<open>The layers before the limiters, the two limiters, and the layers after them.\<close>

definition front :: "AppConfig \<Rightarrow> libs \<Rightarrow> ambient \<Rightarrow> layer list" where
  "front cfg L amb =
     [Use RequestId (requestId_mw amb),
      Use PinoHttp (third_party (pinoHttp L))]
     @ (if isDevelopment cfg then [Use Morgan (third_party (morgan L))] else [])
     @ [Use JsonBody (json_body L),
        Use Cors (third_party (cors L))]
     @ (if enableHelmet (security cfg) then [Use Helmet (third_party (helmet L))] else [])"

definition limiters :: "AppConfig \<Rightarrow> ambient \<Rightarrow> layer list" where
  "limiters cfg amb =
     [Use GlobalLimiter (global_limiter cfg amb),
      UseAt [''/auth'', ''/login''] AuthLimiter (auth_limiter cfg amb)]"

definition rear :: "AppConfig \<Rightarrow> ambient \<Rightarrow> layer list" where
  "rear cfg amb =
     [Use MetricsTimer (metrics_timer amb),
      Get ''/version'' (version_handler cfg),
      Get ''/healthz'' (healthz_handler amb),
      Get ''/readyz'' (readyz_handler cfg),
      Get ''/metrics'' (metrics_handler amb),
      Get ''/'' (root_handler amb),
      Use NotFound notFound,
      UseError ErrorHandler (errorHandler cfg)]"

definition front_stages :: "stage set" where
  "front_stages = {RequestId, PinoHttp, Morgan, JsonBody, Cors, Helmet}"

text \<open>
  What holds of an exchange while it is in the front part: nothing listens for
  \<open>finish\<close>, the process-wide state is the one the request found, only front stages
  ran, and method, path, address and route of the request are as they arrived.
\<close>

definition untouched :: "server \<Rightarrow> request \<Rightarrow> exchange \<Rightarrow> bool" where
  "untouched s rq x =
     (listeners x = [] \<and> srv x = s
      \<and> (\<forall>e \<in> set (trace x). fst e \<in> front_stages)
      \<and> req_method (req x) = req_method rq \<and> req_path (req x) = req_path rq
      \<and> req_ip (req x) = req_ip rq \<and> req_route (req x) = None)"

section \<open>Sample inputs\<close>

text \<open>
  Third-party middleware that set no header and pass every request on, a body parser
  that finds no body, and a production configuration with a ceiling of one request a
  minute.
\<close>

definition quiet_libs :: libs where
  "quiet_libs =
     \<lparr> pinoHttp = (\<lambda>rq. Pass []), morgan = (\<lambda>rq. Pass []), express_json = (\<lambda>rq. Inr None),
       cors = (\<lambda>rq. Pass []), helmet = (\<lambda>rq. Pass []) \<rparr>"

definition sample_cfg :: AppConfig where
  "sample_cfg =
     \<lparr> env = ''production'', serviceName = ''nexus-sentinel'', host = ''0.0.0.0'', port = Num 200,
       corsOrigins = [],
       rateLimit = \<lparr> globalPerMin = Num 1, authPerMin = Num 10 \<rparr>,
       security = \<lparr> enableHelmet = True, enableCSP = True, enableHSTS = True \<rparr>,
       logging = \<lparr> level = ''info'', pretty = False, includeBodies = False \<rparr>,
       build = \<lparr> commit = None, node = ''v20.0.0'' \<rparr> \<rparr>"

definition sample_amb :: ambient where
  "sample_amb =
     \<lparr> now = 1000, finished_at = 1007, uuid = ''0b9f6c1e-5a54-4c1c-9d0e-7f3a2b1c4d5e'',
       uptime = Num 5, contentType = ''text/plain; version=0.0.4; charset=utf-8'' \<rparr>"

definition sample_server :: server where
  "sample_server = \<lparr> globalStore = Map.empty, authStore = Map.empty, httpRequestDurationMs = [] \<rparr>"

text \<open>A server on which the sample client has used up its one request of the minute.\<close>

definition sample_busy_server :: server where
  "sample_busy_server =
     sample_server \<lparr> globalStore := [''203.0.113.7'' \<mapsto> \<lparr> totalHits = 1, resetTime = 60000 \<rparr>] \<rparr>"

definition sample_request :: "string \<Rightarrow> string \<Rightarrow> request" where
  "sample_request m p =
     \<lparr> req_method = m, req_path = p, req_url = p, req_headers = [], req_ip = ''203.0.113.7'',
       req_body = None, req_requestId = None, req_route = None \<rparr>"

section \<open>Notions used to state the properties\<close>







text \<open>A login request that carries a bearer token and a password.\<close>

definition sample_login :: request where
  "sample_login =
     \<lparr> req_method = ''POST'', req_path = ''/login'', req_url = ''/login'',
       req_headers = [(''authorization'', ''Bearer s3cr3t''), (''x-request-id'', ''abc-123'')],
       req_ip = ''203.0.113.7'',
       req_body = Some (JObj [(''user'', JStr ''ada''), (''password'', JStr ''hunter2'')]),
       req_requestId = Some ''abc-123'', req_route = None \<rparr>"

definition sample_response :: response where
  "sample_response = \<lparr> statusCode = Num 200, res_headers = [], res_body = NoBody \<rparr>"

text \<open>
  What holds of every state the process can reach: while it has not exited, each
  pending timeout is due within 30 seconds, and once \<open>server.close\<close> has been called
  there is a listener on \<open>close\<close> and a pending timeout.
\<close>

definition sound :: "lifecycle \<Rightarrow> bool" where
  "sound s =
     (exited s = None \<longrightarrow>
        (closing s \<longrightarrow> close_listeners s \<noteq> [] \<and> timers s \<noteq> [])
        \<and> (\<forall>t \<in> set (timers s). snd t \<le> clock s + 30000))"

text \<open>
  Two states of the process that no later event can tell apart by the exit: they have
  exited alike, or both are closing at the same time of the clock, with the same first
  listener outcome and the same earliest due time.
\<close>

definition agree :: "lifecycle \<Rightarrow> lifecycle \<Rightarrow> bool" where
  "agree a b =
     (exited a = exited b
      \<and> (exited a = None \<longrightarrow>
            clock a = clock b \<and> closing a \<and> closing b
            \<and> close_listeners a \<noteq> [] \<and> close_listeners b \<noteq> []
            \<and> snd (hd (close_listeners a)) = snd (hd (close_listeners b))
            \<and> map_option snd (earliest (timers a)) = map_option snd (earliest (timers b))))"

section \<open>Facts about the stack\<close>

lemmas pipeline_defs = handle_def app_def arrive_def on_finish_def traced_def third_party_def
  json_body_def requestId_mw_def global_limiter_def auth_limiter_def metrics_timer_def
  run_limiter_def makeLimiter_def rateLimit_middleware_def version_handler_def healthz_handler_def
  readyz_handler_def metrics_handler_def root_handler_def notFound_def errorHandler_def
  requestId_def Let_def add_headers_def setHeader_def set_header_def route_match_def
  mount_match_def path_base_def to_lower_def isDevelopment_def isProduction_def req_header_def
  requestIdHeader_def chosen_id_def observe_def str_or_def res_json_def res_status_def
  status_or_500_def getRequestId_def field_def

lemmas sample_defs = sample_cfg_def quiet_libs_def sample_amb_def sample_server_def
  sample_busy_server_def sample_request_def

lemma dispatch_walk:
  "dispatch ls err x = (case walk ls err x of Inl (e, x') \<Rightarrow> finalhandler e x' | Inr x' \<Rightarrow> x')"
  by (induction ls err x rule: dispatch.induct) (auto split: prod.splits outcome.splits)

lemma walk_append:
  "walk (as @ bs) err x = (case walk as err x of Inl (e, x') \<Rightarrow> walk bs e x' | Inr x' \<Rightarrow> Inr x')"
  by (induction as err x rule: walk.induct) (auto split: prod.splits outcome.splits)

lemma setHeader_simps [simp]:
  "statusCode (setHeader k v rs) = statusCode rs" "res_body (setHeader k v rs) = res_body rs"
  by (simp_all add: setHeader_def)

lemma add_headers_simps [simp]:
  "statusCode (add_headers hs rs) = statusCode rs" "res_body (add_headers hs rs) = res_body rs"
  unfolding add_headers_def by (induction hs arbitrary: rs) simp_all

lemma front_walk:
  "case walk (front cfg L amb) None (arrive s rq) of
     Inl (e, x) \<Rightarrow> untouched s rq x \<and> (e = None \<longrightarrow> statusCode (res x) = Num 200 \<and> res_body (res x) = NoBody)
   | Inr x \<Rightarrow> untouched s rq x"
  by (simp add: front_def arrive_def untouched_def front_stages_def traced_def third_party_def json_body_def requestId_mw_def requestId_def Let_def
       split: lib_step.splits sum.splits)

lemma app_split: "app cfg L amb = front cfg L amb @ limiters cfg amb @ rear cfg amb"
  by (simp add: app_def front_def limiters_def rear_def)

lemma run_limiter_out:
  "run_limiter lm t k st rs = (out, st', rs') \<Longrightarrow>
     (out = Next \<and> rs' = rs) \<or> (out = Done \<and> statusCode rs' = Num 429)"
  by (auto simp: run_limiter_def rateLimit_middleware_def Let_def split: limiter.splits option.splits if_splits)

lemma res_simps [simp]:
  "statusCode (res_json j rs) = statusCode rs" "res_body (res_json j rs) = Json j"
  "statusCode (res_status n rs) = n" "res_body (res_status n rs) = res_body rs"
  by (simp_all add: res_json_def res_status_def)

lemma errorHandler_simps [simp]:
  "fst (errorHandler cfg e x) = Done"
  "trace (snd (errorHandler cfg e x)) = trace x"
  "listeners (snd (errorHandler cfg e x)) = listeners x"
  "srv (snd (errorHandler cfg e x)) = srv x"
  "req (snd (errorHandler cfg e x)) = req x"
  by (simp_all add: errorHandler_def Let_def)

lemma walk_error:
  "walk (limiters cfg amb @ rear cfg amb) (Some e) x = Inr (snd (traced ErrorHandler (errorHandler cfg e x)))"
  by (simp add: limiters_def rear_def traced_def errorHandler_def Let_def)

lemma walk_rear:
  "\<exists>x' T. walk (rear cfg amb) None x = Inr x' \<and> trace x' = trace x @ (MetricsTimer, Next) # T
      \<and> fst ` set T \<subseteq> {NotFound} \<union> range Route
      \<and> listeners x' = listeners x @ [now amb] \<and> srv x' = srv x"
  by (simp add: rear_def traced_def metrics_timer_def version_handler_def healthz_handler_def
        readyz_handler_def metrics_handler_def root_handler_def notFound_def Let_def)

lemma handle_cases:
  "handle cfg L amb s rq =
     on_finish amb
       (case walk (front cfg L amb) None (arrive s rq) of
          Inr x \<Rightarrow> x
        | Inl (e, x) \<Rightarrow>
            (case walk (limiters cfg amb @ rear cfg amb) e x of
               Inr x' \<Rightarrow> x'
             | Inl (e', x') \<Rightarrow> finalhandler e' x'))"
  by (simp add: handle_def dispatch_walk app_split walk_append split: sum.splits prod.splits)

lemma on_finish_simps [simp]:
  "trace (on_finish amb x) = trace x" "res (on_finish amb x) = res x" "req (on_finish amb x) = req x"
  "httpRequestDurationMs (srv (on_finish amb x)) = httpRequestDurationMs (srv x) @ map (observe amb x) (listeners x)"
  by (simp_all add: on_finish_def)

lemma walk_limiters:
  assumes "untouched s rq x"
  shows "case walk (limiters cfg amb) None x of
           Inr x' \<Rightarrow>
             ((GlobalLimiter, Done) \<in> set (trace x') \<or> (AuthLimiter, Done) \<in> set (trace x'))
             \<and> (\<forall>e \<in> set (trace x'). fst e \<in> front_stages \<union> {GlobalLimiter, AuthLimiter})
             \<and> listeners x' = [] \<and> httpRequestDurationMs (srv x') = httpRequestDurationMs s
             \<and> statusCode (res x') = Num 429
         | Inl (e, x2) \<Rightarrow>
             e = None
             \<and> (\<forall>e \<in> set (trace x2). fst e \<in> front_stages \<or> e = (GlobalLimiter, Next) \<or> e = (AuthLimiter, Next))
             \<and> listeners x2 = [] \<and> httpRequestDurationMs (srv x2) = httpRequestDurationMs s
             \<and> res x2 = res x \<and> req x2 = req x"
proof -
  obtain o1 st1 rs1 where g: "run_limiter (makeLimiter (globalPerMin (rateLimit cfg))) (now amb) (req_ip (req x))
             (globalStore (srv x)) (res x) = (o1, st1, rs1)"
    by (cases "run_limiter (makeLimiter (globalPerMin (rateLimit cfg))) (now amb) (req_ip (req x))
             (globalStore (srv x)) (res x)") auto
  obtain o2 st2 rs2 where a: "run_limiter (makeLimiter (authPerMin (rateLimit cfg))) (now amb) (req_ip (req x))
             (authStore (srv x)) (res x) = (o2, st2, rs2)"
    by (cases "run_limiter (makeLimiter (authPerMin (rateLimit cfg))) (now amb) (req_ip (req x))
             (authStore (srv x)) (res x)") auto
  from run_limiter_out [OF g] run_limiter_out [OF a] assms g a
  show ?thesis
    by (auto simp: limiters_def global_limiter_def auth_limiter_def traced_def untouched_def)
qed

lemma use_matches: "layer_matches (Use st f) None rq"
  by simp

lemma walk_rear_route:
  assumes "walk (rear cfg amb) None x = Inr x'" "(Route p, out) \<in> set (trace x')"
    "\<forall>q out. (Route q, out) \<notin> set (trace x)"
  shows "listeners x' = listeners x @ [now amb] \<and> srv x' = srv x \<and> out = Done
       \<and> req x' = (req x) \<lparr> req_route := Some p \<rparr>
       \<and> (p = ''/metrics'' \<longrightarrow> statusCode (res x') = statusCode (res x)
              \<and> res_body (res x') = MetricsText (httpRequestDurationMs (srv x)))
       \<and> (p = ''/readyz'' \<longrightarrow> statusCode (res x') = statusCode (res x)
              \<and> res_body (res x') = Json (JObj [(''ok'', JBool True)]))"
  using assms
  by (auto simp: rear_def traced_def metrics_timer_def version_handler_def healthz_handler_def
        readyz_handler_def metrics_handler_def root_handler_def notFound_def Let_def use_matches
      simp del: layer_matches.simps
      split: if_splits)

lemma served_by_route:
  assumes served: "(Route p, out) \<in> set (trace (handle cfg L amb s rq))"
  shows "\<exists>x2 x3. handle cfg L amb s rq = on_finish amb x3
          \<and> walk (rear cfg amb) None x2 = Inr x3
          \<and> (\<forall>q out. (Route q, out) \<notin> set (trace x2))
          \<and> listeners x2 = [] \<and> httpRequestDurationMs (srv x2) = httpRequestDurationMs s
          \<and> statusCode (res x2) = Num 200 \<and> req_method (req x2) = req_method rq"
proof (cases "walk (front cfg L amb) None (arrive s rq)")
  case (Inr x)
  with front_walk [where cfg = cfg and L = L and amb = amb and s = s and rq = rq]
  have "untouched s rq x" by simp
  with served Inr show ?thesis
    by (auto simp: handle_cases untouched_def front_stages_def)
next
  case (Inl pr)
  obtain e x where pr: "pr = (e, x)" by (cases pr)
  with Inl front_walk [where cfg = cfg and L = L and amb = amb and s = s and rq = rq]
  have u: "untouched s rq x" and ok: "e = None \<longrightarrow> statusCode (res x) = Num 200" by simp_all
  show ?thesis
  proof (cases e)
    case (Some err)
    with served Inl pr u show ?thesis
      by (auto simp: handle_cases walk_error traced_def untouched_def front_stages_def)
  next
    case None
    show ?thesis
    proof (cases "walk (limiters cfg amb) None x")
      case (Inr x')
      with walk_limiters [OF u, where cfg = cfg and amb = amb] Inl pr None served show ?thesis
        by (auto simp: handle_cases walk_append front_stages_def)
    next
      case lm: (Inl q)
      obtain e2 x2 where q: "q = (e2, x2)" by (cases q)
      from walk_rear [where cfg = cfg and amb = amb and x = x2] obtain x3 where
        r: "walk (rear cfg amb) None x2 = Inr x3" by blast
      from walk_limiters [OF u, where cfg = cfg and amb = amb] lm q
      have l: "e2 = None"
        "\<forall>e \<in> set (trace x2). fst e \<in> front_stages \<or> e = (GlobalLimiter, Next) \<or> e = (AuthLimiter, Next)"
        "listeners x2 = []" "httpRequestDurationMs (srv x2) = httpRequestDurationMs s"
        "res x2 = res x" "req x2 = req x"
        by simp_all
      have h: "handle cfg L amb s rq = on_finish amb x3"
        using Inl pr None lm q l(1) r by (simp add: handle_cases walk_append)
      have "\<forall>q out. (Route q, out) \<notin> set (trace x2)"
        using l(2) by (auto simp: front_stages_def)
      have "statusCode (res x2) = Num 200" "req_method (req x2) = req_method rq"
        using l(5,6) ok None u by (simp_all add: untouched_def)
      with h r l(3,4) \<open>\<forall>q out. (Route q, out) \<notin> set (trace x2)\<close> show ?thesis
        by blast
    qed
  qed
qed

section \<open>The limiter with a ceiling of 0\<close>

text \<open>
  C4. With a ceiling of 0, \<open>makeLimiter\<close> returns the middleware that only calls
  \<open>next()\<close>: whatever the requests and however many, each is passed on with its
  response as it was, and the store of the limiter stays as it was.
\<close>

theorem zero_ceiling_admits_all:
  "makeLimiter (Num 0) = PassThrough
   \<and> limiter_run (makeLimiter (Num 0)) rs st reqs = (map (\<lambda>r. (Next, rs)) reqs, st)"
proof -
  have "limiter_run PassThrough rs st reqs = (map (\<lambda>r. (Next, rs)) reqs, st)"
    by (induction reqs) (auto simp: run_limiter_def)
  then show ?thesis by (simp add: makeLimiter_def)
qed

section \<open>Rejected requests and the histogram\<close>

text \<open>
  C5. When one of the two limiters rejects a request (it sends the response without
  calling \<open>next()\<close>), the response has status 429, neither the metrics middleware nor
  a route handler has run, and the histogram has the observations it had before.
\<close>

theorem rejected_request_not_observed:
  assumes rej: "(GlobalLimiter, Done) \<in> set (trace (handle cfg L amb s rq))
              \<or> (AuthLimiter, Done) \<in> set (trace (handle cfg L amb s rq))"
  shows "httpRequestDurationMs (srv (handle cfg L amb s rq)) = httpRequestDurationMs s
       \<and> (\<forall>e \<in> set (trace (handle cfg L amb s rq)). fst e \<noteq> MetricsTimer \<and> (\<forall>p. fst e \<noteq> Route p))
       \<and> statusCode (res (handle cfg L amb s rq)) = Num 429"
proof (cases "walk (front cfg L amb) None (arrive s rq)")
  case (Inr x)
  with front_walk [where cfg = cfg and L = L and amb = amb and s = s and rq = rq] have "untouched s rq x" by simp
  with rej Inr show ?thesis
    by (auto simp: handle_cases untouched_def front_stages_def)
next
  case (Inl p)
  obtain e x where p: "p = (e, x)" by (cases p)
  with Inl front_walk [where cfg = cfg and L = L and amb = amb and s = s and rq = rq] have u: "untouched s rq x" by simp
  show ?thesis
  proof (cases e)
    case (Some err)
    with rej Inl p u show ?thesis
      by (auto simp: handle_cases walk_error traced_def untouched_def front_stages_def)
  next
    case None
    show ?thesis
    proof (cases "walk (limiters cfg amb) None x")
      case (Inr x')
      with walk_limiters [OF u, where cfg = cfg and amb = amb] Inl p None show ?thesis
        by (auto simp: handle_cases walk_append front_stages_def)
    next
      case lim: (Inl q)
      obtain e2 x2 where q: "q = (e2, x2)" by (cases q)
      from walk_rear [where cfg = cfg and amb = amb and x = x2] obtain x3 T where
        r: "walk (rear cfg amb) None x2 = Inr x3" "trace x3 = trace x2 @ (MetricsTimer, Next) # T"
           "fst ` set T \<subseteq> {NotFound} \<union> range Route" by blast
      from walk_limiters [OF u, where cfg = cfg and amb = amb] lim q
      have l: "e2 = None" "\<forall>e \<in> set (trace x2). fst e \<in> front_stages \<or> e = (GlobalLimiter, Next) \<or> e = (AuthLimiter, Next)"
        by simp_all
      have "handle cfg L amb s rq = on_finish amb x3"
        using Inl p None lim q l(1) r(1) by (simp add: handle_cases walk_append)
      with rej r(2,3) l(2) show ?thesis
        by (auto simp: front_stages_def)
    qed
  qed
qed

lemma sample_rejected_trace:
  "trace (handle sample_cfg quiet_libs sample_amb sample_busy_server
            (sample_request ''GET'' ''/version''))
   = [(RequestId, Next), (PinoHttp, Next), (JsonBody, Next), (Cors, Next), (Helmet, Next),
      (GlobalLimiter, Done)]"
  by (simp add: pipeline_defs sample_defs)

theorem rejected_request_not_observed_witness:
  "(GlobalLimiter, Done) \<in> set (trace (handle sample_cfg quiet_libs sample_amb sample_busy_server
       (sample_request ''GET'' ''/version'')))
   \<and> httpRequestDurationMs (srv (handle sample_cfg quiet_libs sample_amb sample_busy_server
       (sample_request ''GET'' ''/version''))) = []
   \<and> statusCode (res (handle sample_cfg quiet_libs sample_amb sample_busy_server
       (sample_request ''GET'' ''/version''))) = Num 429"
proof -
  have r: "(GlobalLimiter, Done) \<in> set (trace (handle sample_cfg quiet_libs sample_amb sample_busy_server
       (sample_request ''GET'' ''/version'')))"
    by (simp add: sample_rejected_trace)
  from rejected_request_not_observed [OF disjI1, OF r] r show ?thesis
    by (simp add: sample_server_def sample_busy_server_def)
qed

section \<open>The scrape endpoint and the histogram\<close>

text \<open>
  C6, as the code has it. A request that the route \<open>/metrics\<close> serves has passed the
  metrics middleware like any other: when its response is written, exactly one
  observation is added to the histogram, with the method of the request, the route
  \<open>/metrics\<close> and the status 200. The body it got was rendered before that and shows
  the histogram without this observation.
\<close>

theorem metrics_request_is_observed:
  assumes "(Route ''/metrics'', out) \<in> set (trace (handle cfg L amb s rq))"
  shows "httpRequestDurationMs (srv (handle cfg L amb s rq)) =
           httpRequestDurationMs s
           @ [\<lparr> l_method = req_method rq, l_route = ''/metrics'', l_status = Num 200,
                l_value = int (finished_at amb) - int (now amb) \<rparr>]
       \<and> res_body (res (handle cfg L amb s rq)) = MetricsText (httpRequestDurationMs s)"
proof -
  from served_by_route [OF assms] obtain x2 x3 where
    h: "handle cfg L amb s rq = on_finish amb x3" "walk (rear cfg amb) None x2 = Inr x3"
       "\<forall>q out. (Route q, out) \<notin> set (trace x2)" "listeners x2 = []"
       "httpRequestDurationMs (srv x2) = httpRequestDurationMs s"
       "statusCode (res x2) = Num 200" "req_method (req x2) = req_method rq"
    by blast
  from assms h(1) have "(Route ''/metrics'', out) \<in> set (trace x3)" by simp
  from walk_rear_route [OF h(2) this h(3)] h show ?thesis
    by (simp add: observe_def str_or_def)
qed

lemma sample_metrics_trace:
  "trace (handle sample_cfg quiet_libs sample_amb sample_server (sample_request ''GET'' ''/metrics''))
   = [(RequestId, Next), (PinoHttp, Next), (JsonBody, Next), (Cors, Next), (Helmet, Next),
      (GlobalLimiter, Next), (MetricsTimer, Next), (Route ''/metrics'', Done)]"
  by (simp add: pipeline_defs sample_defs)

theorem metrics_request_is_observed_witness:
  "(Route ''/metrics'', Done) \<in> set (trace (handle sample_cfg quiet_libs sample_amb sample_server
       (sample_request ''GET'' ''/metrics'')))
   \<and> httpRequestDurationMs (srv (handle sample_cfg quiet_libs sample_amb sample_server
       (sample_request ''GET'' ''/metrics'')))
     = [\<lparr> l_method = ''GET'', l_route = ''/metrics'', l_status = Num 200, l_value = 7 \<rparr>]"
proof -
  have r: "(Route ''/metrics'', Done) \<in> set (trace (handle sample_cfg quiet_libs sample_amb sample_server
       (sample_request ''GET'' ''/metrics'')))"
    by (simp add: sample_metrics_trace)
  from metrics_request_is_observed [OF r] r show ?thesis
    by (simp add: sample_server_def sample_amb_def sample_request_def)
qed

text \<open>
  The claim as the specification states it fails: a GET of \<open>/metrics\<close> on a server
  whose histogram is empty leaves one observation in it.
\<close>

theorem metrics_request_excluded_counterexample:
  "httpRequestDurationMs sample_server = []
   \<and> httpRequestDurationMs (srv (handle sample_cfg quiet_libs sample_amb sample_server
        (sample_request ''GET'' ''/metrics'')))
     = [\<lparr> l_method = ''GET'', l_route = ''/metrics'', l_status = Num 200, l_value = 7 \<rparr>]"
  by (simp add: pipeline_defs sample_defs)

section \<open>Readiness\<close>

text \<open>
  C10. The handler of \<open>/readyz\<close> always sends the body \<open>{ok: true}\<close> and leaves the
  status as it is, whatever the configuration: the readiness result is the constant
  \<open>true\<close>, so the branch that sends 503 is never taken. Every request that the route
  \<open>/readyz\<close> serves therefore gets status 200 with that body.
\<close>

theorem readyz_always_ok:
  "fst (readyz_handler cfg x) = Done
   \<and> statusCode (res (snd (readyz_handler cfg x))) = statusCode (res x)
   \<and> res_body (res (snd (readyz_handler cfg x))) = Json (JObj [(''ok'', JBool True)])
   \<and> ((Route ''/readyz'', out) \<in> set (trace (handle cfg L amb s rq)) \<longrightarrow>
        statusCode (res (handle cfg L amb s rq)) = Num 200
        \<and> res_body (res (handle cfg L amb s rq)) = Json (JObj [(''ok'', JBool True)]))"
proof -
  have a: "fst (readyz_handler cfg x) = Done
   \<and> statusCode (res (snd (readyz_handler cfg x))) = statusCode (res x)
   \<and> res_body (res (snd (readyz_handler cfg x))) = Json (JObj [(''ok'', JBool True)])"
    by (simp add: readyz_handler_def)
  have b: "statusCode (res (handle cfg L amb s rq)) = Num 200
        \<and> res_body (res (handle cfg L amb s rq)) = Json (JObj [(''ok'', JBool True)])"
    if served: "(Route ''/readyz'', out) \<in> set (trace (handle cfg L amb s rq))"
  proof -
    from served_by_route [OF served] obtain x2 x3 where
      h: "handle cfg L amb s rq = on_finish amb x3" "walk (rear cfg amb) None x2 = Inr x3"
         "\<forall>q out. (Route q, out) \<notin> set (trace x2)" "statusCode (res x2) = Num 200"
      by blast
    from served h(1) have "(Route ''/readyz'', out) \<in> set (trace x3)" by simp
    from walk_rear_route [OF h(2) this h(3)] h show ?thesis by simp
  qed
  from a b show ?thesis by blast
qed

lemma sample_readyz_trace:
  "trace (handle sample_cfg quiet_libs sample_amb sample_server (sample_request ''GET'' ''/readyz''))
   = [(RequestId, Next), (PinoHttp, Next), (JsonBody, Next), (Cors, Next), (Helmet, Next),
      (GlobalLimiter, Next), (MetricsTimer, Next), (Route ''/readyz'', Done)]"
  by (simp add: pipeline_defs sample_defs)

theorem readyz_always_ok_witness:
  "(Route ''/readyz'', Done) \<in> set (trace (handle sample_cfg quiet_libs sample_amb sample_server
       (sample_request ''GET'' ''/readyz'')))
   \<and> statusCode (res (handle sample_cfg quiet_libs sample_amb sample_server
       (sample_request ''GET'' ''/readyz''))) = Num 200
   \<and> res_body (res (handle sample_cfg quiet_libs sample_amb sample_server
       (sample_request ''GET'' ''/readyz''))) = Json (JObj [(''ok'', JBool True)])"
proof -
  have r: "(Route ''/readyz'', Done) \<in> set (trace (handle sample_cfg quiet_libs sample_amb sample_server
       (sample_request ''GET'' ''/readyz'')))"
    by (simp add: sample_readyz_trace)
  from readyz_always_ok [where out = Done and cfg = sample_cfg and L = quiet_libs and amb = sample_amb
      and s = sample_server and rq = "sample_request ''GET'' ''/readyz''"] r
  show ?thesis by simp
qed

section \<open>Configuration\<close>


















section \<open>Correlation identifier\<close>

lemma map_of_filter_out: "map_of (filter (\<lambda>kv. fst kv \<noteq> k) hs) k = None"
  by (induction hs) auto







section \<open>The error handler\<close>




section \<open>The fixed window\<close>

lemma limiter_run_append:
  "limiter_run lm rs st (xs @ ys) =
     (fst (limiter_run lm rs st xs) @ fst (limiter_run lm rs (snd (limiter_run lm rs st xs)) ys),
      snd (limiter_run lm rs (snd (limiter_run lm rs st xs)) ys))"
  by (induction xs arbitrary: st) (auto split: prod.splits)

lemma js_le_nat [simp]: "js_le (Num (of_nat a)) (Num (of_nat b)) \<longleftrightarrow> a \<le> b"
  by simp

lemma makeLimiter_positive:
  "0 < N \<Longrightarrow> makeLimiter (Num (of_nat N)) =
     RateLimit \<lparr> windowMs = 60000, limit = Num (of_nat N), standardHeaders = True, legacyHeaders = False \<rparr>"
  by (simp add: makeLimiter_def)

lemma window_opens:
  assumes "\<forall>w. st k = Some w \<longrightarrow> resetTime w \<le> t"
  shows "run_limiter (RateLimit opts) t k st rs =
           (Next, st(k \<mapsto> \<lparr> totalHits = 1, resetTime = t + windowMs opts \<rparr>), rs)"
  using assms by (auto simp: run_limiter_def rateLimit_middleware_def Let_def split: option.splits)

lemma within_ceiling:
  assumes "st k = Some \<lparr> totalHits = c, resetTime = R \<rparr>" "\<forall>t \<in> set ts. t < R"
    "c + length ts \<le> N" "limit opts = Num (of_nat N)"
  shows "limiter_run (RateLimit opts) rs st (map (\<lambda>t. (t, k)) ts) =
           (replicate (length ts) (Next, rs), st(k \<mapsto> \<lparr> totalHits = c + length ts, resetTime = R \<rparr>))"
  using assms
proof (induction ts arbitrary: c st)
  case Nil
  then show ?case by (auto simp: fun_upd_idem)
next
  case (Cons t ts)
  have step: "run_limiter (RateLimit opts) t k st rs =
      (Next, st(k \<mapsto> \<lparr> totalHits = c + 1, resetTime = R \<rparr>), rs)"
    using Cons.prems by (simp add: run_limiter_def rateLimit_middleware_def Let_def)
  have "limiter_run (RateLimit opts) rs (st(k \<mapsto> \<lparr> totalHits = c + 1, resetTime = R \<rparr>)) (map (\<lambda>t. (t, k)) ts) =
           (replicate (length ts) (Next, rs),
            (st(k \<mapsto> \<lparr> totalHits = c + 1, resetTime = R \<rparr>))(k \<mapsto> \<lparr> totalHits = (c + 1) + length ts, resetTime = R \<rparr>))"
    using Cons.prems by (intro Cons.IH) auto
  then have "limiter_run (RateLimit opts) rs (st(k \<mapsto> \<lparr> totalHits = c + 1, resetTime = R \<rparr>)) (map (\<lambda>t. (t, k)) ts) =
           (replicate (length ts) (Next, rs), st(k \<mapsto> \<lparr> totalHits = c + length (t # ts), resetTime = R \<rparr>))"
    by simp
  then show ?case unfolding list.map limiter_run.simps step by (simp add: fun_eq_iff)
qed

lemma over_ceiling:
  assumes "st k = Some \<lparr> totalHits = N, resetTime = R \<rparr>" "t < R" "limit opts = Num (of_nat N)"
    "standardHeaders opts"
  shows "run_limiter (RateLimit opts) t k st rs =
           (Done, st(k \<mapsto> \<lparr> totalHits = N + 1, resetTime = R \<rparr>),
            (setHeader ''RateLimit-Limit'' (HNum (Num (of_nat N)))
              (setHeader ''RateLimit-Remaining'' (HNum (Num 0))
                (setHeader ''RateLimit-Reset'' (HNum (Num (of_nat R))) rs))) \<lparr> statusCode := Num 429 \<rparr>)"
  using assms by (simp add: run_limiter_def rateLimit_middleware_def Let_def)

lemma map_of_filter_other: "k' \<noteq> k \<Longrightarrow> map_of (filter (\<lambda>kv. fst kv \<noteq> k') hs) k = map_of hs k"
  by (induction hs) auto

lemma getHeader_setHeader:
  "getHeader k (setHeader k' v rs) = (if map to_lower k = map to_lower k' then Some v else getHeader k rs)"
  by (auto simp: getHeader_def setHeader_def set_header_def map_of_filter_out map_of_filter_other map_add_def
      split: option.splits)

lemma getHeader_status [simp]: "getHeader k (rs \<lparr> statusCode := n \<rparr>) = getHeader k rs"
  by (simp add: getHeader_def)

text \<open>
  C3. Let the ceiling be a positive number \<open>N\<close>, and let a client have no active
  window at time \<open>t0\<close>. Of \<open>N + 1\<close> requests of that client, the first at \<open>t0\<close> and the
  others before \<open>t0 + 60000\<close>, the limiter built by \<open>makeLimiter\<close> passes the first
  \<open>N\<close> on and rejects the last with status 429 and the headers for the limit, the
  remaining count and the reset time; a request at or after \<open>t0 + 60000\<close> is passed
  on again.
\<close>

theorem fixed_window_ceiling:
  assumes "0 < N"
    and "\<forall>w. st k = Some w \<longrightarrow> resetTime w \<le> t0"
    and "length ts = N"
    and "\<forall>t \<in> set ts. t < t0 + 60000"
    and "t0 + 60000 \<le> t'"
  shows "map fst (take N (fst (limiter_run (makeLimiter (Num (of_nat N))) rs st (map (\<lambda>t. (t, k)) (t0 # ts)))))
           = replicate N Next
       \<and> fst (fst (limiter_run (makeLimiter (Num (of_nat N))) rs st (map (\<lambda>t. (t, k)) (t0 # ts))) ! N) = Done
       \<and> statusCode (snd (fst (limiter_run (makeLimiter (Num (of_nat N))) rs st (map (\<lambda>t. (t, k)) (t0 # ts))) ! N))
           = Num 429
       \<and> getHeader ''RateLimit-Limit'' (snd (fst (limiter_run (makeLimiter (Num (of_nat N))) rs st (map (\<lambda>t. (t, k)) (t0 # ts))) ! N))
           = Some (HNum (Num (of_nat N)))
       \<and> getHeader ''RateLimit-Remaining'' (snd (fst (limiter_run (makeLimiter (Num (of_nat N))) rs st (map (\<lambda>t. (t, k)) (t0 # ts))) ! N))
           = Some (HNum (Num 0))
       \<and> getHeader ''RateLimit-Reset'' (snd (fst (limiter_run (makeLimiter (Num (of_nat N))) rs st (map (\<lambda>t. (t, k)) (t0 # ts))) ! N))
           = Some (HNum (Num (of_nat (t0 + 60000))))
       \<and> fst (run_limiter (makeLimiter (Num (of_nat N))) t' k
                (snd (limiter_run (makeLimiter (Num (of_nat N))) rs st (map (\<lambda>t. (t, k)) (t0 # ts)))) rs)
           = Next"
proof -
  define opts where "opts = \<lparr> windowMs = 60000, limit = Num (of_nat N), standardHeaders = True, legacyHeaders = False \<rparr>"
  have lm: "makeLimiter (Num (of_nat N)) = RateLimit opts"
    using assms(1) by (simp add: makeLimiter_positive opts_def)
  have o: "limit opts = Num (of_nat N)" "standardHeaders opts" "windowMs opts = 60000"
    by (simp_all add: opts_def)
  from assms(1,3) obtain us u where ts: "ts = us @ [u]" and us: "length us = N - 1"
    by (cases ts rule: rev_cases) auto
  define R where "R = t0 + 60000"
  define st1 where "st1 = st(k \<mapsto> \<lparr> totalHits = 1, resetTime = R \<rparr>)"
  define st2 where "st2 = st1(k \<mapsto> \<lparr> totalHits = 1 + length us, resetTime = R \<rparr>)"
  define st3 where "st3 = st2(k \<mapsto> \<lparr> totalHits = N + 1, resetTime = R \<rparr>)"
  define rej where "rej = (setHeader ''RateLimit-Limit'' (HNum (Num (of_nat N)))
              (setHeader ''RateLimit-Remaining'' (HNum (Num 0))
                (setHeader ''RateLimit-Reset'' (HNum (Num (of_nat R))) rs))) \<lparr> statusCode := Num 429 \<rparr>"
  have a: "run_limiter (RateLimit opts) t0 k st rs = (Next, st1, rs)"
    using window_opens [where st = st and k = k and t = t0 and opts = opts and rs = rs] assms(2)
    by (simp add: st1_def R_def o)
  have b: "limiter_run (RateLimit opts) rs st1 (map (\<lambda>t. (t, k)) us) = (replicate (length us) (Next, rs), st2)"
    unfolding st2_def
    using assms(1,4) us ts o(1)
    by (intro within_ceiling) (auto simp: st1_def R_def)
  have c: "run_limiter (RateLimit opts) u k st2 rs = (Done, st3, rej)"
    unfolding st3_def rej_def
    using assms(1,4) us ts o
    by (intro over_ceiling) (auto simp: st2_def R_def)
  have run: "limiter_run (RateLimit opts) rs st (map (\<lambda>t. (t, k)) (t0 # ts))
       = ((Next, rs) # replicate (length us) (Next, rs) @ [(Done, rej)], st3)"
    using a b c by (simp add: ts limiter_run_append)
  have len: "Suc (length us) = N" using us assms(1) by simp
  have d: "fst (run_limiter (RateLimit opts) t' k st3 rs) = Next"
    using window_opens [where st = st3 and k = k and t = t' and opts = opts and rs = rs] assms(5)
    by (simp add: st3_def R_def)
  have n: "((Next, rs) # replicate (length us) (Next, rs) @ [(Done, rej)]) ! N = (Done, rej)"
    using len by (metis length_Cons length_replicate nth_append_length append_Cons)
  have t: "take N ((Next, rs) # replicate (length us) (Next, rs) @ [(Done, rej)]) = replicate N (Next, rs)"
    using len by (metis append_Cons append_eq_conv_conj length_Cons length_replicate replicate_Suc)
  show ?thesis
    unfolding lm run
    using d n t by (simp add: rej_def R_def getHeader_setHeader to_lower_def)
qed

theorem fixed_window_ceiling_witness:
  "map fst (fst (limiter_run (makeLimiter (Num 2)) sample_response Map.empty
       [(1000, ''203.0.113.7''), (1010, ''203.0.113.7''), (1020, ''203.0.113.7'')]))
     = [Next, Next, Done]
   \<and> statusCode (snd (fst (limiter_run (makeLimiter (Num 2)) sample_response Map.empty
       [(1000, ''203.0.113.7''), (1010, ''203.0.113.7''), (1020, ''203.0.113.7'')]) ! 2)) = Num 429
   \<and> fst (run_limiter (makeLimiter (Num 2)) 61000 ''203.0.113.7''
        (snd (limiter_run (makeLimiter (Num 2)) sample_response Map.empty
          [(1000, ''203.0.113.7''), (1010, ''203.0.113.7''), (1020, ''203.0.113.7'')]))
        sample_response) = Next"
proof -
  have h: "0 < (2::nat)" "\<forall>w. (Map.empty :: store) ''203.0.113.7'' = Some w \<longrightarrow> resetTime w \<le> 1000"
    "length [1010, 1020 :: nat] = 2" "\<forall>t \<in> set [1010, 1020 :: nat]. t < 1000 + 60000"
    "(1000::nat) + 60000 \<le> 61000"
    by simp_all
  have e: "map fst (fst (limiter_run (makeLimiter (Num 2)) sample_response Map.empty
       [(1000, ''203.0.113.7''), (1010, ''203.0.113.7''), (1020, ''203.0.113.7'')]))
     = [Next, Next, Done]"
    by (simp add: makeLimiter_def run_limiter_def rateLimit_middleware_def Let_def)
  from fixed_window_ceiling [OF h, of sample_response] e show ?thesis
    by simp
qed

section \<open>Redaction\<close>

lemma redact_paths_split:
  "split_on CHR ''.'' ''req.headers.authorization'' = [''req'', ''headers'', ''authorization'']"
  "split_on CHR ''.'' ''req.body.password'' = [''req'', ''body'', ''password'']"
  "split_on CHR ''.'' ''res.body'' = [''res'', ''body'']"
  by simp_all

lemma censor_headers:
  "map (\<lambda>kv. if fst kv = k then (fst kv, c) else kv)
     (map (\<lambda>kv. (fst kv, JStr (snd kv))) (map (\<lambda>kv. if fst kv = k then (fst kv, a) else kv) hs))
   = map (\<lambda>kv. if fst kv = k then (fst kv, c) else kv) (map (\<lambda>kv. (fst kv, JStr (snd kv))) hs)"
  by (induction hs) auto

lemma censor_fields:
  "map (\<lambda>kv. if fst kv = k then (fst kv, c) else kv)
     (map (\<lambda>kv. if fst kv = k then (fst kv, v) else kv) kvs)
   = map (\<lambda>kv. if fst kv = k then (fst kv, c) else kv) kvs"
  by (induction kvs) auto

lemma req_record_censored:
  "censor_at [''body'', ''password''] c (censor_at [''headers'', ''authorization''] c
      (req_record amb (with_authorization a (with_password pw rq))))
   = censor_at [''body'', ''password''] c (censor_at [''headers'', ''authorization''] c (req_record amb rq))"
proof (cases "req_body rq")
  case None
  then show ?thesis
    by (simp add: req_record_def with_authorization_def with_password_def genReqId_def getRequestId_def
          field_def censor_headers)
next
  case (Some b)
  then show ?thesis
    by (cases b)
       (simp_all add: req_record_def with_authorization_def with_password_def genReqId_def getRequestId_def
          field_def censor_headers censor_fields)
qed

text \<open>
  C9. In every tier, the records emitted for a request do not depend on the value of
  its header \<open>authorization\<close> nor on the value of the field \<open>password\<close> of its body:
  replacing either value by any other gives the same records, in which the marker
  \<open>[REDACTED]\<close> stands in their place.
\<close>

theorem secrets_not_logged:
  "request_records cfg amb (with_authorization a (with_password pw rq)) rs = request_records cfg amb rq rs"
proof -
  have "redact_record (redact (logger cfg)) (JObj (customProps cfg @ (''req'', req_record amb (with_authorization a (with_password pw rq))) # tl0))
      = redact_record (redact (logger cfg)) (JObj (customProps cfg @ (''req'', req_record amb rq) # tl0))" for tl0
    using req_record_censored [of "JStr ''[REDACTED]''" amb a pw rq]
    by (simp add: redact_record_def logger_def redact_paths_split customProps_def)
  then show ?thesis
    by (simp add: request_records_def)
qed

theorem secrets_not_logged_witness:
  "request_records sample_cfg sample_amb
       (with_authorization ''Bearer 0ther'' (with_password (JStr ''letmein'') sample_login))
       sample_response
     = request_records sample_cfg sample_amb sample_login sample_response
   \<and> request_records sample_cfg sample_amb sample_login sample_response
     = [JObj [(''env'', JStr ''production''), (''service'', JStr ''nexus-sentinel''),
              (''req'', JObj [(''id'', JStr ''abc-123''), (''method'', JStr ''POST''),
                              (''url'', JStr ''/login''),
                              (''headers'', JObj [(''authorization'', JStr ''[REDACTED]''),
                                                  (''x-request-id'', JStr ''abc-123'')]),
                              (''body'', JObj [(''user'', JStr ''ada''),
                                               (''password'', JStr ''[REDACTED]'')])]),
              (''msg'', JStr ''request started'')],
        JObj [(''env'', JStr ''production''), (''service'', JStr ''nexus-sentinel''),
              (''req'', JObj [(''id'', JStr ''abc-123''), (''method'', JStr ''POST''),
                              (''url'', JStr ''/login''),
                              (''headers'', JObj [(''authorization'', JStr ''[REDACTED]''),
                                                  (''x-request-id'', JStr ''abc-123'')]),
                              (''body'', JObj [(''user'', JStr ''ada''),
                                               (''password'', JStr ''[REDACTED]'')])]),
              (''res'', JObj [(''statusCode'', JNum (Num 200))]),
              (''responseTime'', JNum (Num 7)),
              (''msg'', JStr ''request completed'')]]"
proof -
  have "request_records sample_cfg sample_amb sample_login sample_response
     = [JObj [(''env'', JStr ''production''), (''service'', JStr ''nexus-sentinel''),
              (''req'', JObj [(''id'', JStr ''abc-123''), (''method'', JStr ''POST''),
                              (''url'', JStr ''/login''),
                              (''headers'', JObj [(''authorization'', JStr ''[REDACTED]''),
                                                  (''x-request-id'', JStr ''abc-123'')]),
                              (''body'', JObj [(''user'', JStr ''ada''),
                                               (''password'', JStr ''[REDACTED]'')])]),
              (''msg'', JStr ''request started'')],
        JObj [(''env'', JStr ''production''), (''service'', JStr ''nexus-sentinel''),
              (''req'', JObj [(''id'', JStr ''abc-123''), (''method'', JStr ''POST''),
                              (''url'', JStr ''/login''),
                              (''headers'', JObj [(''authorization'', JStr ''[REDACTED]''),
                                                  (''x-request-id'', JStr ''abc-123'')]),
                              (''body'', JObj [(''user'', JStr ''ada''),
                                               (''password'', JStr ''[REDACTED]'')])]),
              (''res'', JObj [(''statusCode'', JNum (Num 200))]),
              (''responseTime'', JNum (Num 7)),
              (''msg'', JStr ''request completed'')]]"
    by (simp add: request_records_def redact_record_def logger_def redact_paths_split customProps_def
          req_record_def res_record_def genReqId_def getRequestId_def field_def
          sample_cfg_def sample_amb_def sample_login_def sample_response_def)
  with secrets_not_logged [of sample_cfg sample_amb "''Bearer 0ther''" "JStr ''letmein''" sample_login
      sample_response]
  show ?thesis by simp
qed

section \<open>A second termination signal\<close>

lemmas lifecycle_defs = shutdown_def setTimeout_def server_close_def log_call_def process_exit_def
  clearTimeout_def on_timeout_def on_close_def Let_def

lemma earliest_mem: "earliest ts = Some t \<Longrightarrow> t \<in> set ts"
  by (induction ts arbitrary: t) (auto split: option.splits if_splits)

lemma earliest_None [simp]: "earliest ts = None \<longleftrightarrow> ts = []"
  by (cases ts) (auto split: option.splits)

lemma earliest_snoc:
  "map_option snd (earliest (ts @ [x])) =
     Some (case map_option snd (earliest ts) of None \<Rightarrow> snd x | Some m \<Rightarrow> min m (snd x))"
  by (induction ts) (auto split: option.splits if_splits simp: min_def)

lemma sound_step: "sound s \<Longrightarrow> sound (step ev s)"
  by (cases ev)
     (auto simp: sound_def step_def lifecycle_defs split: option.splits list.splits)

lemma sound_run: "sound s \<Longrightarrow> sound (run evs s)"
  by (induction evs arbitrary: s) (auto simp: sound_step)

lemma sound_boot: "sound boot"
  by (simp add: sound_def boot_def)

lemma step_exited: "exited s = Some c \<Longrightarrow> step ev s = s"
  by (simp add: step_def)

lemma agree_step: "agree a b \<Longrightarrow> agree (step ev a) (step ev b)"
proof (cases "exited a")
  case (Some c)
  assume ag: "agree a b"
  with Some have "exited b = Some c" by (simp add: agree_def)
  with Some ag show ?thesis by (simp add: step_exited)
next
  case None
  assume ag: "agree a b"
  with None have f: "exited b = None" "clock a = clock b" "closing a" "closing b"
    "close_listeners a \<noteq> []" "close_listeners b \<noteq> []"
    "snd (hd (close_listeners a)) = snd (hd (close_listeners b))"
    "map_option snd (earliest (timers a)) = map_option snd (earliest (timers b))"
    by (simp_all add: agree_def)
  show ?thesis
  proof (cases ev)
    case (Signal sg)
    with None f show ?thesis
      by (auto simp: agree_def step_def lifecycle_defs earliest_snoc split: option.splits)
  next
    case (Elapse d)
    with None f show ?thesis
      by (cases "earliest (timers a)"; cases "earliest (timers b)")
         (auto simp: agree_def step_def lifecycle_defs)
  next
    case ServerClosed
    with None f show ?thesis
      by (cases "close_listeners a"; cases "close_listeners b")
         (auto simp: agree_def step_def lifecycle_defs)
  qed
qed

lemma agree_run: "agree a b \<Longrightarrow> agree (run evs a) (run evs b)"
  by (induction evs arbitrary: a b) (auto simp: agree_step)

lemma agree_shutdown:
  assumes "sound s" "closing s" "exited s = None"
  shows "agree s (shutdown sg s)"
proof -
  from assms obtain t where t: "earliest (timers s) = Some t"
    by (cases "earliest (timers s)") (auto simp: sound_def)
  with assms earliest_mem [OF t] have "snd t \<le> clock s + 30000"
    by (auto simp: sound_def)
  with assms t show ?thesis
    by (auto simp: agree_def sound_def lifecycle_defs earliest_snoc)
qed

text \<open>
  C7, as the code has it. \<open>shutdown\<close> has no guard, so a second signal while the
  server is already closing runs it again: it logs \<open>Shutdown initiated\<close> once more,
  arms one more timeout of 30 seconds and calls \<open>server.close\<close> again, whose callback
  then waits with the error for a server that is not running. The timeout and the
  callback of the first signal stay in place, and whatever happens afterwards, the
  process exits with the same code at the same time as it would have without the
  second signal.
\<close>

theorem second_signal_keeps_outcome:
  assumes "s = run evs0 boot" "closing s" "exited s = None"
  shows "exited (run evs (shutdown sg s)) = exited (run evs s)
       \<and> timers (shutdown sg s) = timers s @ [(next_handle s, clock s + 30000)]
       \<and> close_listeners (shutdown sg s) = close_listeners s @ [(next_handle s, True)]
       \<and> logged (shutdown sg s) = logged s @ [(Warn, [(''signal'', sg)], ''Shutdown initiated'')]"
proof -
  from assms(1) have "sound s" by (simp add: sound_run sound_boot)
  from agree_run [OF agree_shutdown [OF this assms(2,3)], of evs sg]
  have "exited (run evs (shutdown sg s)) = exited (run evs s)" by (simp add: agree_def)
  with assms(2) show ?thesis by (simp add: lifecycle_defs)
qed

theorem second_signal_keeps_outcome_witness:
  "closing (run [Signal ''SIGINT'', Elapse 100] boot)
   \<and> exited (run [Signal ''SIGINT'', Elapse 100] boot) = None
   \<and> exited (run [Elapse 1000, ServerClosed] (shutdown ''SIGTERM'' (run [Signal ''SIGINT'', Elapse 100] boot)))
       = Some (0, 1100)
   \<and> exited (run [Elapse 1000, ServerClosed] (run [Signal ''SIGINT'', Elapse 100] boot)) = Some (0, 1100)"
proof -
  have a: "closing (run [Signal ''SIGINT'', Elapse 100] boot)"
    "exited (run [Signal ''SIGINT'', Elapse 100] boot) = None"
    by (simp_all add: step_def boot_def lifecycle_defs)
  have b: "exited (run [Elapse 1000, ServerClosed] (run [Signal ''SIGINT'', Elapse 100] boot)) = Some (0, 1100)"
    by (simp add: step_def boot_def lifecycle_defs)
  from second_signal_keeps_outcome [OF refl a, of "[Elapse 1000, ServerClosed]" "''SIGTERM''"] a b show ?thesis
    by simp
qed

text \<open>
  The claim as the specification states it fails: the second signal is no no-op, it
  leaves a second pending timeout and a second log record.
\<close>

theorem second_signal_not_noop_counterexample:
  "closing (shutdown ''SIGINT'' boot) \<and> exited (shutdown ''SIGINT'' boot) = None
   \<and> timers (shutdown ''SIGINT'' boot) = [(0, 30000)]
   \<and> timers (shutdown ''SIGTERM'' (shutdown ''SIGINT'' boot)) = [(0, 30000), (1, 30000)]
   \<and> length (logged (shutdown ''SIGINT'' boot)) = 1
   \<and> length (logged (shutdown ''SIGTERM'' (shutdown ''SIGINT'' boot))) = 2
   \<and> shutdown ''SIGTERM'' (shutdown ''SIGINT'' boot) \<noteq> shutdown ''SIGINT'' boot"
  by (simp add: boot_def lifecycle_defs)

end
